theory Spec2Isabelle
  imports Main "HOL-Library.Extended_Nat"
begin

section \<open>Values exchanged with the daemon and with clients\<close>

text \<open>
  The session layer of \<open>lbry/wallet/server/session.py\<close> handles JSON values: the
  arguments of an RPC call and the daemon's answers. A Python \<open>str\<close> is a sequence of
  code points, \<open>bytes\<close> a sequence of 8-bit characters. A \<open>dict\<close> is an association
  list whose first binding of a key is the binding; the keys the code looks up are all
  ASCII literals, so keys are written as Isabelle strings. Floats do not occur in the
  model.
\<close>

type_synonym pystr = "nat list"
type_synonym bytes = "char list"

datatype pyval =
    PNone
  | PBool bool
  | PInt int
  | PStr pystr
  | PList "pyval list"
  | PDict "(string \<times> pyval) list"

type_synonym pydict = "(string \<times> pyval) list"

text \<open>
  \<open>RPCError code f'{value}{text}'\<close> keeps the interpolated value and the literal text of
  the f-string apart. The other constructors are the built-in exceptions the handlers can
  let escape; \<open>DaemonError\<close> and \<open>WorkerError\<close> stand for failures of the two
  collaborators.
\<close>

datatype error =
    RPCError int pyval string
  | KeyError string
  | TypeError
  | AttributeError
  | ValueError
  | OverflowError
  | UnicodeEncodeError
  | UnicodeDecodeError
  | DaemonError
  | WorkerError

definition ustr :: "string \<Rightarrow> pystr" where
  "ustr s = map of_char s"

text \<open>Python truthiness, as \<open>if x\<close>, \<open>not x\<close> and \<open>x and y\<close> test it.\<close>

fun truthy :: "pyval \<Rightarrow> bool" where
  "truthy PNone = False"
| "truthy (PBool b) = b"
| "truthy (PInt i) = (i \<noteq> 0)"
| "truthy (PStr s) = (s \<noteq> [])"
| "truthy (PList xs) = (xs \<noteq> [])"
| "truthy (PDict d) = (d \<noteq> [])"

text \<open>\<open>key in d\<close>, \<open>d[key]\<close> and \<open>d.get(key)\<close>.\<close>

definition contains :: "pydict \<Rightarrow> string \<Rightarrow> bool" where
  "contains d k = (map_of d k \<noteq> None)"

definition getitem :: "pydict \<Rightarrow> string \<Rightarrow> error + pyval" where
  "getitem d k = (case map_of d k of None \<Rightarrow> Inl (KeyError k) | Some v \<Rightarrow> Inr v)"

definition dict_get :: "pydict \<Rightarrow> string \<Rightarrow> pyval" where
  "dict_get d k = (case map_of d k of None \<Rightarrow> PNone | Some v \<Rightarrow> v)"

text \<open>
  An operand of integer arithmetic: an \<open>int\<close>, or a \<open>bool\<close> (a subclass of \<open>int\<close>);
  anything else makes \<open>-\<close> raise \<open>TypeError\<close>.
\<close>

fun as_int :: "pyval \<Rightarrow> int option" where
  "as_int (PInt i) = Some i"
| "as_int (PBool b) = Some (if b then 1 else 0)"
| "as_int _ = None"

text \<open>\<open>dict(pairs)\<close>: the pairs are stored from left to right, a later pair overwriting
  an earlier one with the same key.\<close>

definition dict_of :: "('k \<times> 'v) list \<Rightarrow> ('k \<rightharpoonup> 'v)" where
  "dict_of kvs = foldl (\<lambda>m (k, v). m(k \<mapsto> v)) Map.empty kvs"

section \<open>The legacy text encoding\<close>

text \<open>
  \<open>s.encode('ISO-8859-1')\<close> maps each code point below 256 to the byte of that value and
  raises \<open>UnicodeEncodeError\<close> on any other code point.
\<close>

definition encode_latin1 :: "pystr \<Rightarrow> error + bytes" where
  "encode_latin1 s =
     (if list_all (\<lambda>c. c < 256) s then Inr (map char_of s) else Inl UnicodeEncodeError)"

text \<open>
  \<open>b.decode()\<close> is strict UTF-8: continuation bytes are \<open>0x80..0xBF\<close>; overlong forms,
  surrogates and code points above \<open>0x10FFFF\<close> raise \<open>UnicodeDecodeError\<close>.
\<close>

definition is_cont :: "nat \<Rightarrow> bool" where
  "is_cont b = (128 \<le> b \<and> b < 192)"

fun utf8 :: "nat list \<Rightarrow> pystr option" where
  "utf8 [] = Some []"
| "utf8 (b0 # bs) =
     (if b0 < 128 then map_option ((#) b0) (utf8 bs)
      else if 194 \<le> b0 \<and> b0 < 224 then
        (case bs of
           b1 # r \<Rightarrow>
             if is_cont b1
             then map_option ((#) ((b0 - 192) * 64 + (b1 - 128))) (utf8 r)
             else None
         | _ \<Rightarrow> None)
      else if 224 \<le> b0 \<and> b0 < 240 then
        (case bs of
           b1 # b2 # r \<Rightarrow>
             (let cp = (b0 - 224) * 4096 + (b1 - 128) * 64 + (b2 - 128)
              in if is_cont b1 \<and> is_cont b2 \<and> 2048 \<le> cp \<and> \<not> (55296 \<le> cp \<and> cp < 57344)
                 then map_option ((#) cp) (utf8 r)
                 else None)
         | _ \<Rightarrow> None)
      else if 240 \<le> b0 \<and> b0 < 245 then
        (case bs of
           b1 # b2 # b3 # r \<Rightarrow>
             (let cp = (b0 - 240) * 262144 + (b1 - 128) * 4096 + (b2 - 128) * 64 + (b3 - 128)
              in if is_cont b1 \<and> is_cont b2 \<and> is_cont b3 \<and> 65536 \<le> cp \<and> cp < 1114112
                 then map_option ((#) cp) (utf8 r)
                 else None)
         | _ \<Rightarrow> None)
      else None)"

definition decode_utf8 :: "bytes \<Rightarrow> error + pystr" where
  "decode_utf8 b =
     (case utf8 (map of_char b) of None \<Rightarrow> Inl UnicodeDecodeError | Some s \<Rightarrow> Inr s)"

text \<open>
  \<open>v.encode('ISO-8859-1').decode()\<close> on a field of a daemon record: a value that is not a
  \<open>str\<close> has no \<open>encode\<close> attribute.
\<close>

definition decode_legacy :: "pyval \<Rightarrow> error + pystr" where
  "decode_legacy v =
     (case v of
        PStr s \<Rightarrow> (case encode_latin1 s of Inl e \<Rightarrow> Inl e | Inr b \<Rightarrow> decode_utf8 b)
      | _ \<Rightarrow> Inl AttributeError)"

text \<open>\<open>hexlify(b).decode()\<close>: two lower-case hexadecimal digits for each byte.\<close>

definition hex_digit :: "nat \<Rightarrow> nat" where
  "hex_digit n = (if n < 10 then 48 + n else 87 + n)"

definition hexlify :: "bytes \<Rightarrow> pystr" where
  "hexlify b = concat (map (\<lambda>c. [hex_digit (of_char c div 16), hex_digit (of_char c mod 16)]) b)"

definition hexlify_legacy :: "pyval \<Rightarrow> error + pystr" where
  "hexlify_legacy v =
     (case v of
        PStr s \<Rightarrow> (case encode_latin1 s of Inl e \<Rightarrow> Inl e | Inr b \<Rightarrow> Inr (hexlify b))
      | _ \<Rightarrow> Inl AttributeError)"

section \<open>The session and its collaborators\<close>

text \<open>
  What a \<open>LBRYElectrumX\<close> session reaches through \<open>self\<close>. The collaborators are not
  part of the session layer and are parameters here:
  \<^item> \<open>db_height\<close> is \<open>self.db.db_height\<close> and \<open>bp_height\<close> is \<open>self.bp.height\<close>;
  \<^item> \<open>sql_get_claims\<close> is \<open>self.db.sql.get_claims(claim_id=...)\<close>: the \<open>address\<close> bytes of
    the row found, or \<open>None\<close> when the index has no row;
  \<^item> \<open>daemon_getrawtransaction\<close> and \<open>daemon_getclaimsbyids\<close> are the daemon client's
    answers (a JSON object or null, and a list of them);
  \<^item> \<open>hex_to_bytes\<close> is \<open>torba.server.util.hex_to_bytes\<close>, \<open>None\<close> when it raises;
  \<^item> \<open>search_to_bytes\<close> and \<open>resolve_to_bytes\<close> are the routines of \<open>reader\<close> run by the
    query executor, \<open>b64encode\<close> is \<open>base64.b64encode(...).decode()\<close>.
\<close>

record session =
  db_height :: int
  bp_height :: int
  sql_get_claims :: "pyval \<Rightarrow> bytes option"
  daemon_getrawtransaction :: "pyval \<Rightarrow> bool \<Rightarrow> error + pydict option"
  daemon_getclaimsbyids :: "pystr list \<Rightarrow> error + pydict option list"
  hex_to_bytes :: "pyval \<Rightarrow> bytes option"
  search_to_bytes :: "pydict \<Rightarrow> error + bytes"
  resolve_to_bytes :: "pyval list \<Rightarrow> error + bytes"
  b64encode :: "bytes \<Rightarrow> pystr"

text \<open>
  The effects of a handler on the outside: the requests sent to the daemon and the jobs
  handed to the query executor, in order.
\<close>

datatype daemon_call = GetRawTransaction pyval bool | GetClaimsByIds "pystr list"

datatype job = SearchToBytes pydict | ResolveToBytes "pyval list"

record trace =
  daemon_calls :: "daemon_call list"
  submitted :: "job list"

definition call_daemon :: "daemon_call \<Rightarrow> trace \<Rightarrow> trace" where
  "call_daemon c tr = tr\<lparr>daemon_calls := daemon_calls tr @ [c]\<rparr>"

definition run_in_executor :: "job \<Rightarrow> trace \<Rightarrow> trace" where
  "run_in_executor j tr = tr\<lparr>submitted := submitted tr @ [j]\<rparr>"

section \<open>Parameter validation\<close>

definition assert_tx_hash :: "session \<Rightarrow> pyval \<Rightarrow> error + unit" where
  "assert_tx_hash s v =
     (case hex_to_bytes s v of
        Some b \<Rightarrow>
          if length b = 32 then Inr ()
          else Inl (RPCError 1 v '' should be a transaction hash'')
      | None \<Rightarrow> Inl (RPCError 1 v '' should be a transaction hash''))"

definition assert_claim_id :: "session \<Rightarrow> pyval \<Rightarrow> error + unit" where
  "assert_claim_id s v =
     (case hex_to_bytes s v of
        Some b \<Rightarrow>
          if length b = 20 then Inr ()
          else Inl (RPCError 1 v '' should be a claim id hash'')
      | None \<Rightarrow> Inl (RPCError 1 v '' should be a claim id hash''))"

section \<open>Claim normalization\<close>

fun get_from_possible_keys :: "pydict \<Rightarrow> string list \<Rightarrow> pyval" where
  "get_from_possible_keys d [] = PNone"
| "get_from_possible_keys d (k # ks) =
     (case map_of d k of Some v \<Rightarrow> v | None \<Rightarrow> get_from_possible_keys d ks)"

text \<open>
  Exceptions propagate: \<open>bind x f\<close> continues with \<open>f\<close> on the value of \<open>x\<close>, or
  stops at the exception \<open>x\<close> raised.
\<close>

definition bind :: "error + 'a \<Rightarrow> ('a \<Rightarrow> error + 'b) \<Rightarrow> error + 'b" where
  "bind x f = (case x of Inl e \<Rightarrow> Inl e | Inr v \<Rightarrow> f v)"

text \<open>
  \<open>format_claim_from_daemon(claim, name)\<close>, in three parts: the name (lines 105-106),
  the result literal with \<open>claim_sequence\<close> and \<open>normalized_name\<close> stored afterwards
  (lines 116-142), and the function itself. The entries of the result literal are
  evaluated in the order they are written, so the first failing one decides the exception.
\<close>

definition claim_name :: "pydict \<Rightarrow> pyval \<Rightarrow> error + pyval" where
  "claim_name c name0 =
     (case map_of c ''name'' of
        None \<Rightarrow> Inr name0
      | Some n \<Rightarrow> bind (decode_legacy n) (\<lambda>t. Inr (PStr t)))"

definition claim_result ::
  "session \<Rightarrow> pydict \<Rightarrow> pyval \<Rightarrow> pyval \<Rightarrow> pystr \<Rightarrow> error + pydict" where
  "claim_result s c name claim_id address =
     (let supports = [];
          amount = get_from_possible_keys c [''amount'', ''nAmount''];
          height = get_from_possible_keys c [''height'', ''nHeight''];
          effective_amount =
            get_from_possible_keys c [''effective amount'', ''nEffectiveAmount''];
          valid_at_height =
            get_from_possible_keys c [''valid at height'', ''nValidAtHeight'']
      in
      bind (getitem c ''txid'') (\<lambda>txid.
      bind (getitem c ''n'') (\<lambda>nout.
      bind (case as_int height of None \<Rightarrow> Inl TypeError
            | Some h \<Rightarrow> Inr (PInt (db_height s - h + 1))) (\<lambda>depth.
      bind (getitem c ''value'') (\<lambda>raw_value.
      bind (hexlify_legacy raw_value) (\<lambda>hex_value.
      let result =
            [(''name'', name),
             (''claim_id'', claim_id),
             (''txid'', txid),
             (''nout'', nout),
             (''amount'', amount),
             (''depth'', depth),
             (''height'', height),
             (''value'', PStr hex_value),
             (''address'', PStr address),
             (''supports'', PList supports),
             (''effective_amount'', effective_amount),
             (''valid_at_height'', valid_at_height)];
          result' =
            result @ [(''claim_sequence'',
               (case map_of c ''claim_sequence'' of Some q \<Rightarrow> q | None \<Rightarrow> PInt (- 1)))]
      in
      case map_of c ''normalized_name'' of
        None \<Rightarrow> Inr result'
      | Some nn \<Rightarrow>
          bind (decode_legacy nn) (\<lambda>t. Inr (result' @ [(''normalized_name'', PStr t)]))))))))"

definition format_claim_from_daemon :: "session \<Rightarrow> pydict option \<Rightarrow> pyval \<Rightarrow> error + pydict" where
  "format_claim_from_daemon s claim name0 =
     (case claim of
        None \<Rightarrow> Inr []
      | Some c \<Rightarrow>
          if c = [] then Inr []
          else
            bind (claim_name c name0) (\<lambda>name.
            bind (getitem c ''claimId'') (\<lambda>claim_id.
            case sql_get_claims s claim_id of
              None \<Rightarrow> Inr []
            | Some info_address \<Rightarrow>
                bind (decode_utf8 info_address) (\<lambda>address.
                claim_result s c name claim_id address))))"

section \<open>RPC handlers\<close>

text \<open>A handler returns its result, or the exception it raises, and the trace it leaves.\<close>

definition claimtrie_search :: "session \<Rightarrow> trace \<Rightarrow> pydict \<Rightarrow> (error + pystr) \<times> trace" where
  "claimtrie_search s tr kwargs =
     (case (case map_of kwargs ''claim_id'' of
              Some v \<Rightarrow> assert_claim_id s v
            | None \<Rightarrow> Inr ()) of
        Inl e \<Rightarrow> (Inl e, tr)
      | Inr _ \<Rightarrow>
          (map_sum id (b64encode s) (search_to_bytes s kwargs),
           run_in_executor (SearchToBytes kwargs) tr))"

definition claimtrie_resolve :: "session \<Rightarrow> trace \<Rightarrow> pyval list \<Rightarrow> (error + pystr) \<times> trace" where
  "claimtrie_resolve s tr urls =
     (map_sum id (b64encode s) (resolve_to_bytes s urls),
      run_in_executor (ResolveToBytes urls) tr)"

definition get_server_height :: "session \<Rightarrow> trace \<Rightarrow> (error + pyval) \<times> trace" where
  "get_server_height s tr = (Inr (PInt (bp_height s)), tr)"

definition transaction_get_height :: "session \<Rightarrow> trace \<Rightarrow> pyval \<Rightarrow> (error + pyval) \<times> trace" where
  "transaction_get_height s tr tx_hash =
     (case assert_tx_hash s tx_hash of
        Inl e \<Rightarrow> (Inl e, tr)
      | Inr _ \<Rightarrow>
          (let tr' = call_daemon (GetRawTransaction tx_hash True) tr in
           case daemon_getrawtransaction s tx_hash True of
             Inl e \<Rightarrow> (Inl e, tr')
           | Inr transaction_info \<Rightarrow>
               (case transaction_info of
                  None \<Rightarrow> (Inr PNone, tr')
                | Some info \<Rightarrow>
                    if info \<noteq> [] \<and> contains info ''hex'' \<and> contains info ''confirmations''
                    then
                      (case as_int (dict_get info ''confirmations'') of
                         None \<Rightarrow> (Inl TypeError, tr')
                       | Some c \<Rightarrow> (Inr (PInt ((db_height s - c) + 1)), tr'))
                    else if info \<noteq> [] \<and> contains info ''hex'' then (Inr (PInt (- 1)), tr')
                    else (Inr PNone, tr'))))"

text \<open>
  The loop of \<open>batched_formatted_claims_from_daemon\<close>; \<open>result\<close> is the list built so
  far. \<open>name\<close> keeps its default \<open>None\<close>.
\<close>

definition keeps :: "pydict option \<Rightarrow> bool" where
  "keeps claim =
     (case claim of None \<Rightarrow> False | Some c \<Rightarrow> c \<noteq> [] \<and> truthy (dict_get c ''value''))"

fun format_each :: "session \<Rightarrow> pydict option list \<Rightarrow> pydict list \<Rightarrow> error + pydict list" where
  "format_each s [] result = Inr result"
| "format_each s (claim # claims) result =
     (if keeps claim then
        (case format_claim_from_daemon s claim PNone of
           Inl e \<Rightarrow> Inl e
         | Inr r \<Rightarrow> format_each s claims (result @ [r]))
      else format_each s claims result)"

definition batched_formatted_claims_from_daemon ::
  "session \<Rightarrow> trace \<Rightarrow> pystr list \<Rightarrow> (error + pydict list) \<times> trace" where
  "batched_formatted_claims_from_daemon s tr claim_ids =
     (let tr' = call_daemon (GetClaimsByIds claim_ids) tr in
      case daemon_getclaimsbyids s claim_ids of
        Inl e \<Rightarrow> (Inl e, tr')
      | Inr claims \<Rightarrow> (format_each s claims [], tr'))"

definition claimtrie_getclaimsbyids ::
  "session \<Rightarrow> trace \<Rightarrow> pystr list \<Rightarrow> (error + (pystr \<rightharpoonup> pydict)) \<times> trace" where
  "claimtrie_getclaimsbyids s tr claim_ids =
     (case batched_formatted_claims_from_daemon s tr claim_ids of
        (Inl e, tr') \<Rightarrow> (Inl e, tr')
      | (Inr claims, tr') \<Rightarrow> (Inr (dict_of (zip claim_ids claims)), tr'))"

section \<open>The query executor\<close>

text \<open>
  \<open>LBRYSessionManager.start_other\<close> reads \<open>self.env.max_query_workers\<close> (an integer or
  \<open>None\<close>) and, on one path, \<open>os.cpu_count()\<close> (an integer or \<open>None\<close>;
  \<open>max(None, 4)\<close> raises \<open>TypeError\<close>). Both executors get
  \<open>initializer=reader.initializer, initargs=('claims.db', NET)\<close>. An executor is described
  by its kind, its \<open>max_workers\<close>, its \<open>initializer\<close> and its \<open>initargs\<close>.

  The constructors are the standard library's. \<open>ThreadPoolExecutor(max_workers=1)\<close> always
  succeeds. \<open>ProcessPoolExecutor\<close> refuses a \<open>max_workers\<close> that is not positive with
  \<open>ValueError\<close>, and it refuses one that is too large for the platform: its call queue
  holds \<open>max_workers + 1\<close> entries counted by a semaphore, so that on Linux
  \<open>2**31 - 2\<close> workers are the most it accepts and more raise \<open>OverflowError\<close>; on
  win32, from Python 3.8, more than 61 raise \<open>ValueError\<close>. The platform is a parameter:
  what \<open>os.cpu_count()\<close> returns, the largest \<open>max_workers\<close> a process pool accepts
  and the exception it raises beyond.
\<close>

record env =
  max_query_workers :: "int option"
  coin_NET :: string

record platform =
  os_cpu_count :: "int option"
  max_pool_workers :: int
  pool_refusal :: error

datatype initializer = ReaderInitializer

datatype executor =
    ThreadPoolExecutor int initializer "string \<times> string"
  | ProcessPoolExecutor int initializer "string \<times> string"

definition new_process_pool ::
  "platform \<Rightarrow> int \<Rightarrow> initializer \<Rightarrow> string \<times> string \<Rightarrow> error + executor" where
  "new_process_pool p max_workers init initargs =
     (if max_workers \<le> 0 then Inl ValueError
      else if max_pool_workers p < max_workers then Inl (pool_refusal p)
      else Inr (ProcessPoolExecutor max_workers init initargs))"

definition start_other :: "env \<Rightarrow> platform \<Rightarrow> error + executor" where
  "start_other e p =
     (let initargs = (''claims.db'', coin_NET e) in
      if max_query_workers e \<noteq> None \<and> max_query_workers e = Some 0
      then Inr (ThreadPoolExecutor 1 ReaderInitializer initargs)
      else
        case (case max_query_workers e of
                Some n \<Rightarrow>
                  if n \<noteq> 0 then Inr n
                  else (case os_cpu_count p of None \<Rightarrow> Inl TypeError | Some c \<Rightarrow> Inr (max c 4))
              | None \<Rightarrow>
                  (case os_cpu_count p of None \<Rightarrow> Inl TypeError | Some c \<Rightarrow> Inr (max c 4))) of
          Inl err \<Rightarrow> Inl err
        | Inr max_workers \<Rightarrow> new_process_pool p max_workers ReaderInitializer initargs)"

text \<open>Linux, with the number of cores it reports.\<close>

definition linux :: "int option \<Rightarrow> platform" where
  "linux cores =
     \<lparr>os_cpu_count = cores, max_pool_workers = 2147483646, pool_refusal = OverflowError\<rparr>"

text \<open>
  Modelled from the spec: the workers that an executor serves with. What makes them,
  \<open>concurrent.futures\<close> and \<open>reader.initializer\<close>, is not among the sources. By the spec
  (sections 3 and 4.1) the worker of a thread executor runs on a thread of the server's own
  process and every worker of a process pool is a separate process, as many workers as
  \<open>max_workers\<close>; each worker, at its creation, runs the initializer once, and the reader's
  initializer opens one read-only connection to the index database at the path it is given,
  for the network it is given; the worker holds that connection for itself, for its whole
  life.
\<close>

datatype worker_kind = InProcessThread | SeparateProcess

record index_connection =
  index_path :: string
  network :: string
  read_only :: bool
  held_by :: nat

record worker =
  runs_as :: worker_kind
  worker_number :: nat
  initializer_runs :: nat
  index_conn :: index_connection

fun run_initializer :: "initializer \<Rightarrow> nat \<Rightarrow> string \<times> string \<Rightarrow> index_connection" where
  "run_initializer ReaderInitializer w (path, net) =
     \<lparr>index_path = path, network = net, read_only = True, held_by = w\<rparr>"

definition spawn :: "worker_kind \<Rightarrow> initializer \<Rightarrow> string \<times> string \<Rightarrow> nat \<Rightarrow> worker" where
  "spawn k init initargs w =
     \<lparr>runs_as = k, worker_number = w, initializer_runs = 1,
      index_conn = run_initializer init w initargs\<rparr>"

fun workers :: "executor \<Rightarrow> worker list" where
  "workers (ThreadPoolExecutor n init initargs) =
     map (spawn InProcessThread init initargs) [0..<nat n]"
| "workers (ProcessPoolExecutor n init initargs) =
     map (spawn SeparateProcess init initargs) [0..<nat n]"

section \<open>Error tolerance of a session\<close>

text \<open>\<open>LBRYElectrumX.max_errors = math.inf\<close>: the tolerance is infinite.\<close>

definition max_errors :: enat where
  "max_errors = \<infinity>"

text \<open>
  Modelled from the spec: the error accounting of the base session class
  (\<open>torba.server.session.ElectrumX\<close>), which is not among the sources. The spec gives a
  session an error counter and an error tolerance; every request that ends in an
  application-level error is counted, and the base layer disconnects a session whose
  counter has reached the tolerance. A disconnected session serves nothing further.
\<close>

record connection =
  errors :: nat
  closing :: bool

datatype outcome = Answered | Errored

definition count_error :: "enat \<Rightarrow> connection \<Rightarrow> connection" where
  "count_error limit c =
     (let n = errors c + 1 in c\<lparr>errors := n, closing := (limit \<le> enat n)\<rparr>)"

definition handle_request :: "enat \<Rightarrow> connection \<Rightarrow> outcome \<Rightarrow> connection" where
  "handle_request limit c out =
     (if closing c then c
      else case out of Answered \<Rightarrow> c | Errored \<Rightarrow> count_error limit c)"

definition serve :: "enat \<Rightarrow> connection \<Rightarrow> outcome list \<Rightarrow> connection" where
  "serve limit c outs = foldl (handle_request limit) c outs"

section \<open>Sample data\<close>

text \<open>
  \<open>bytes.fromhex\<close>, which \<open>torba.server.util.hex_to_bytes\<close> names: ASCII whitespace is
  skipped before each byte, a byte is two hexadecimal digits, anything else raises
  \<open>ValueError\<close>.
\<close>

definition is_space :: "nat \<Rightarrow> bool" where
  "is_space c = (c = 32 \<or> (9 \<le> c \<and> c \<le> 13))"

definition digit_value :: "nat \<Rightarrow> nat option" where
  "digit_value c =
     (if 48 \<le> c \<and> c \<le> 57 then Some (c - 48)
      else if 97 \<le> c \<and> c \<le> 102 then Some (c - 87)
      else if 65 \<le> c \<and> c \<le> 70 then Some (c - 55)
      else None)"

fun fromhex :: "pystr \<Rightarrow> bytes option" where
  "fromhex [] = Some []"
| "fromhex [c] = (if is_space c then Some [] else None)"
| "fromhex (c # d # r) =
     (if is_space c then fromhex (d # r)
      else case (digit_value c, digit_value d) of
             (Some t, Some b) \<Rightarrow> map_option ((#) (char_of (16 * t + b))) (fromhex r)
           | _ \<Rightarrow> None)"

definition py_fromhex :: "pyval \<Rightarrow> bytes option" where
  "py_fromhex v = (case v of PStr t \<Rightarrow> fromhex t | _ \<Rightarrow> None)"

text \<open>
  A session at height 100 whose index knows the claims \<open>c1\<close> and \<open>c3\<close>, and a daemon
  that answers every transaction with three confirmations and every batch of claim ids
  with the records of \<open>c1\<close>, of a claim with no value and a name that is no string,
  and of \<open>c3\<close>.
\<close>

definition sample_claim :: "string \<Rightarrow> int \<Rightarrow> pydict" where
  "sample_claim cid h =
     [(''claimId'', PStr (ustr cid)), (''txid'', PStr (ustr ''ab'')), (''n'', PInt 0),
      (''nHeight'', PInt h), (''value'', PStr (ustr ''v''))]"

definition sample_record :: "string \<Rightarrow> int \<Rightarrow> pydict" where
  "sample_record cid h =
     [(''name'', PNone), (''claim_id'', PStr (ustr cid)), (''txid'', PStr (ustr ''ab'')),
      (''nout'', PInt 0), (''amount'', PNone), (''depth'', PInt (100 - h + 1)),
      (''height'', PInt h), (''value'', PStr (ustr ''76'')), (''address'', PStr (ustr ''bK'')),
      (''supports'', PList []), (''effective_amount'', PNone), (''valid_at_height'', PNone),
      (''claim_sequence'', PInt (- 1))]"

definition sample_claims :: "pydict option list" where
  "sample_claims =
     [Some (sample_claim ''c1'' 90),
      Some [(''claimId'', PStr (ustr ''c2'')), (''name'', PInt 7)],
      Some (sample_claim ''c3'' 95)]"

definition sample_session :: session where
  "sample_session =
     \<lparr>db_height = 100,
      bp_height = 100,
      sql_get_claims =
        (\<lambda>v. if v = PStr (ustr ''c1'') \<or> v = PStr (ustr ''c3'') then Some ''bK'' else None),
      daemon_getrawtransaction =
        (\<lambda>h v. Inr (Some [(''hex'', PStr (ustr ''00'')), (''confirmations'', PInt 3)])),
      daemon_getclaimsbyids = (\<lambda>ids. Inr sample_claims),
      hex_to_bytes = py_fromhex,
      search_to_bytes = (\<lambda>kwargs. Inr ''found''),
      resolve_to_bytes = (\<lambda>urls. Inr ''resolved''),
      b64encode = (\<lambda>b. map of_char b)\<rparr>"

definition sample_trace :: trace where
  "sample_trace = \<lparr>daemon_calls = [], submitted = []\<rparr>"

definition sample_tx_hash :: pyval where
  "sample_tx_hash =
     PStr (ustr ''e3b0c44298fc1c149afbf4c8996fb92427ae41e4649b934ca495991b7852b855'')"

section \<open>Validation of parameters\<close>

text \<open>The sample transaction hash is 64 hexadecimal digits; \<open>abcd\<close> is two bytes.\<close>

lemma sample_tx_hash_bytes:
  "\<exists>b. hex_to_bytes sample_session sample_tx_hash = Some b \<and> length b = 32"
  by (simp add: sample_session_def sample_tx_hash_def py_fromhex_def ustr_def
      is_space_def digit_value_def)

lemma short_hash_bytes:
  "\<not> (\<exists>b. hex_to_bytes sample_session (PStr (ustr ''abcd'')) = Some b \<and> length b = n + 3)"
  by (simp add: sample_session_def py_fromhex_def ustr_def is_space_def digit_value_def)


text \<open>
  C3. A transaction hash that \<open>hex_to_bytes\<close> does not turn into exactly 32 bytes (it
  raises, or gives another length) makes \<open>transaction_get_height\<close> fail with
  \<open>RPCError\<close> code 1 and the message \<open>'<value> should be a transaction hash'\<close>, and the
  trace is the one before the call: the daemon has not been contacted. A hash that decodes
  to exactly 32 bytes passes \<open>assert_tx_hash\<close>, and the daemon is then asked for it.
\<close>

theorem transaction_get_height_validation:
  "(\<not> (\<exists>b. hex_to_bytes s tx_hash = Some b \<and> length b = 32) \<longrightarrow>
      transaction_get_height s tr tx_hash =
        (Inl (RPCError 1 tx_hash '' should be a transaction hash''), tr)) \<and>
   ((\<exists>b. hex_to_bytes s tx_hash = Some b \<and> length b = 32) \<longrightarrow>
      assert_tx_hash s tx_hash = Inr () \<and>
      daemon_calls (snd (transaction_get_height s tr tx_hash)) =
        daemon_calls tr @ [GetRawTransaction tx_hash True])"
proof (intro conjI impI)
  assume bad: "\<not> (\<exists>b. hex_to_bytes s tx_hash = Some b \<and> length b = 32)"
  then have "assert_tx_hash s tx_hash = Inl (RPCError 1 tx_hash '' should be a transaction hash'')"
    by (simp add: assert_tx_hash_def split: option.splits)
  then show "transaction_get_height s tr tx_hash =
        (Inl (RPCError 1 tx_hash '' should be a transaction hash''), tr)"
    by (simp add: transaction_get_height_def)
next
  assume good: "\<exists>b. hex_to_bytes s tx_hash = Some b \<and> length b = 32"
  then show ok: "assert_tx_hash s tx_hash = Inr ()"
    by (auto simp: assert_tx_hash_def)
  show "daemon_calls (snd (transaction_get_height s tr tx_hash)) =
        daemon_calls tr @ [GetRawTransaction tx_hash True]"
    using ok
    by (simp add: transaction_get_height_def call_daemon_def Let_def
        split: sum.splits option.splits)
qed

theorem transaction_get_height_validation_witness:
  "transaction_get_height sample_session sample_trace (PStr (ustr ''abcd'')) =
     (Inl (RPCError 1 (PStr (ustr ''abcd'')) '' should be a transaction hash''), sample_trace) \<and>
   assert_tx_hash sample_session sample_tx_hash = Inr () \<and>
   daemon_calls (snd (transaction_get_height sample_session sample_trace sample_tx_hash)) =
     [GetRawTransaction sample_tx_hash True]"
proof -
  have bad: "\<not> (\<exists>b. hex_to_bytes sample_session (PStr (ustr ''abcd'')) = Some b \<and> length b = 32)"
    using short_hash_bytes [of 29] by simp
  show ?thesis
    using transaction_get_height_validation [of sample_session "PStr (ustr ''abcd'')" sample_trace]
      transaction_get_height_validation [of sample_session sample_tx_hash sample_trace]
      bad sample_tx_hash_bytes
    by (simp add: sample_trace_def)
qed

text \<open>
  C4. When the criteria of \<open>claimtrie_search\<close> hold a \<open>claim_id\<close> that does not decode
  to exactly 20 bytes, the call fails with \<open>RPCError\<close> code 1 and leaves the trace
  untouched: nothing has been handed to the query executor. Criteria with no \<open>claim_id\<close>
  key are not validated: the search is submitted and its payload returned encoded, whatever
  else the criteria hold.
\<close>

theorem claimtrie_search_validation:
  "(\<forall>v. map_of kwargs ''claim_id'' = Some v \<and>
        \<not> (\<exists>b. hex_to_bytes s v = Some b \<and> length b = 20) \<longrightarrow>
        claimtrie_search s tr kwargs = (Inl (RPCError 1 v '' should be a claim id hash''), tr)) \<and>
   (map_of kwargs ''claim_id'' = None \<longrightarrow>
        claimtrie_search s tr kwargs =
          (map_sum id (b64encode s) (search_to_bytes s kwargs),
           run_in_executor (SearchToBytes kwargs) tr))"
proof (intro conjI impI allI)
  fix v
  assume h: "map_of kwargs ''claim_id'' = Some v \<and>
        \<not> (\<exists>b. hex_to_bytes s v = Some b \<and> length b = 20)"
  then have "assert_claim_id s v = Inl (RPCError 1 v '' should be a claim id hash'')"
    by (simp add: assert_claim_id_def split: option.splits)
  with h show "claimtrie_search s tr kwargs = (Inl (RPCError 1 v '' should be a claim id hash''), tr)"
    by (simp add: claimtrie_search_def)
next
  assume "map_of kwargs ''claim_id'' = None"
  then show "claimtrie_search s tr kwargs =
          (map_sum id (b64encode s) (search_to_bytes s kwargs),
           run_in_executor (SearchToBytes kwargs) tr)"
    by (simp add: claimtrie_search_def)
qed

theorem claimtrie_search_validation_witness:
  "claimtrie_search sample_session sample_trace [(''claim_id'', PStr (ustr ''abcd''))] =
     (Inl (RPCError 1 (PStr (ustr ''abcd'')) '' should be a claim id hash''), sample_trace) \<and>
   claimtrie_search sample_session sample_trace [(''name'', PStr (ustr ''abcd''))] =
     (Inr (ustr ''found''),
      \<lparr>daemon_calls = [], submitted = [SearchToBytes [(''name'', PStr (ustr ''abcd''))]]\<rparr>)"
proof -
  have bad: "\<not> (\<exists>b. hex_to_bytes sample_session (PStr (ustr ''abcd'')) = Some b \<and> length b = 20)"
    using short_hash_bytes [of 17] by simp
  have a: "map_of [(''claim_id'', PStr (ustr ''abcd''))] ''claim_id'' = Some (PStr (ustr ''abcd''))"
    by simp
  have b: "map_of [(''name'', PStr (ustr ''abcd''))] ''claim_id'' = None"
    by simp
  have c: "map_sum id (b64encode sample_session)
             (search_to_bytes sample_session [(''name'', PStr (ustr ''abcd''))]) = Inr (ustr ''found'')"
    by (simp add: sample_session_def ustr_def)
  have d: "run_in_executor (SearchToBytes [(''name'', PStr (ustr ''abcd''))]) sample_trace =
      \<lparr>daemon_calls = [], submitted = [SearchToBytes [(''name'', PStr (ustr ''abcd''))]]\<rparr>"
    by (simp add: run_in_executor_def sample_trace_def)
  show ?thesis
    using claimtrie_search_validation
        [of "[(''claim_id'', PStr (ustr ''abcd''))]" sample_session sample_trace]
      claimtrie_search_validation
        [of "[(''name'', PStr (ustr ''abcd''))]" sample_session sample_trace]
      bad a b c d
    by metis
qed

section \<open>Transaction height\<close>

lemma sample_tx_hash_valid: "assert_tx_hash sample_session sample_tx_hash = Inr ()"
  using sample_tx_hash_bytes by (auto simp: assert_tx_hash_def)

lemma assert_tx_hash_update [simp]:
  "assert_tx_hash (s\<lparr>daemon_getrawtransaction := f\<rparr>) v = assert_tx_hash s v"
  by (simp add: assert_tx_hash_def)

text \<open>
  C2. For a transaction hash that passes validation and a daemon that answers, the result of
  \<open>transaction_get_height\<close> is decided by the answer: with a \<open>hex\<close> payload and a
  \<open>confirmations\<close> count \<open>c\<close> it is \<open>(db_height - c) + 1\<close>; with a \<open>hex\<close> payload and no
  \<open>confirmations\<close> key it is \<open>-1\<close>; for every other answer (none, an empty one, one
  without \<open>hex\<close>) it is \<open>None\<close>.
\<close>

theorem transaction_get_height_result:
  assumes valid: "assert_tx_hash s tx_hash = Inr ()"
    and answer: "daemon_getrawtransaction s tx_hash True = Inr response"
  shows
    "(\<forall>info c. response = Some info \<and> map_of info ''hex'' \<noteq> None \<and>
         map_of info ''confirmations'' = Some (PInt c) \<longrightarrow>
         fst (transaction_get_height s tr tx_hash) = Inr (PInt ((db_height s - c) + 1))) \<and>
     (\<forall>info. response = Some info \<and> map_of info ''hex'' \<noteq> None \<and>
         map_of info ''confirmations'' = None \<longrightarrow>
         fst (transaction_get_height s tr tx_hash) = Inr (PInt (- 1))) \<and>
     (response = None \<or> response = Some [] \<or>
        (\<exists>info. response = Some info \<and> map_of info ''hex'' = None) \<longrightarrow>
         fst (transaction_get_height s tr tx_hash) = Inr PNone)"
proof (intro conjI allI impI)
  fix info c
  assume h: "response = Some info \<and> map_of info ''hex'' \<noteq> None \<and>
         map_of info ''confirmations'' = Some (PInt c)"
  then have "info \<noteq> []" by auto
  with h valid answer
  show "fst (transaction_get_height s tr tx_hash) = Inr (PInt ((db_height s - c) + 1))"
    by (simp add: transaction_get_height_def Let_def contains_def dict_get_def)
next
  fix info
  assume h: "response = Some info \<and> map_of info ''hex'' \<noteq> None \<and>
         map_of info ''confirmations'' = None"
  then have "info \<noteq> []" by auto
  with h valid answer
  show "fst (transaction_get_height s tr tx_hash) = Inr (PInt (- 1))"
    by (simp add: transaction_get_height_def Let_def contains_def)
next
  assume "response = None \<or> response = Some [] \<or>
        (\<exists>info. response = Some info \<and> map_of info ''hex'' = None)"
  with valid answer
  show "fst (transaction_get_height s tr tx_hash) = Inr PNone"
    by (auto simp: transaction_get_height_def Let_def contains_def)
qed

theorem transaction_get_height_result_witness:
  "fst (transaction_get_height sample_session sample_trace sample_tx_hash) = Inr (PInt 98) \<and>
   fst (transaction_get_height
          (sample_session\<lparr>daemon_getrawtransaction :=
             (\<lambda>h v. Inr (Some [(''hex'', PStr (ustr ''00''))]))\<rparr>)
          sample_trace sample_tx_hash) = Inr (PInt (- 1)) \<and>
   fst (transaction_get_height
          (sample_session\<lparr>daemon_getrawtransaction := (\<lambda>h v. Inr None)\<rparr>)
          sample_trace sample_tx_hash) = Inr PNone"
proof -
  let ?s1 = "sample_session\<lparr>daemon_getrawtransaction :=
             (\<lambda>h v. Inr (Some [(''hex'', PStr (ustr ''00''))]))\<rparr>"
  let ?s2 = "sample_session\<lparr>daemon_getrawtransaction := (\<lambda>h v. Inr None)\<rparr>"
  have a0: "daemon_getrawtransaction sample_session sample_tx_hash True =
      Inr (Some [(''hex'', PStr (ustr ''00'')), (''confirmations'', PInt 3)])"
    by (simp add: sample_session_def)
  have a1: "daemon_getrawtransaction ?s1 sample_tx_hash True =
      Inr (Some [(''hex'', PStr (ustr ''00''))])"
    by simp
  have a2: "daemon_getrawtransaction ?s2 sample_tx_hash True = Inr None"
    by simp
  have v1: "assert_tx_hash ?s1 sample_tx_hash = Inr ()"
    by (simp add: sample_tx_hash_valid)
  have v2: "assert_tx_hash ?s2 sample_tx_hash = Inr ()"
    by (simp add: sample_tx_hash_valid)
  have h: "db_height sample_session = 100"
    by (simp add: sample_session_def)
  show ?thesis
    using transaction_get_height_result [OF sample_tx_hash_valid a0, of sample_trace]
      transaction_get_height_result [OF v1 a1, of sample_trace]
      transaction_get_height_result [OF v2 a2, of sample_trace] h
    by simp
qed

section \<open>Start of the query executor\<close>

text \<open>The executors that \<open>start_other\<close> can return, and the workers they serve with.\<close>

lemma start_other_executor:
  assumes "start_other e p = Inr ex"
  shows "\<exists>n. ex = ThreadPoolExecutor n ReaderInitializer (''claims.db'', coin_NET e) \<or>
             ex = ProcessPoolExecutor n ReaderInitializer (''claims.db'', coin_NET e)"
  using assms
  by (auto simp: start_other_def new_process_pool_def Let_def split: if_splits option.splits)

lemma workers_kind:
  "map runs_as (workers (ThreadPoolExecutor n init initargs)) = replicate (nat n) InProcessThread"
  "map runs_as (workers (ProcessPoolExecutor n init initargs)) = replicate (nat n) SeparateProcess"
  by (simp_all add: spawn_def comp_def map_replicate_const)

lemma workers_initialized:
  assumes "ex = ThreadPoolExecutor n ReaderInitializer (path, net) \<or>
           ex = ProcessPoolExecutor n ReaderInitializer (path, net)"
    and "w \<in> set (workers ex)"
  shows "initializer_runs w = 1 \<and> index_path (index_conn w) = path \<and>
         network (index_conn w) = net \<and> read_only (index_conn w)"
  using assms by (auto simp: spawn_def)

lemma workers_own_connection:
  assumes "ex = ThreadPoolExecutor n ReaderInitializer (path, net) \<or>
           ex = ProcessPoolExecutor n ReaderInitializer (path, net)"
  shows "distinct (map index_conn (workers ex))"
proof -
  have "inj_on (\<lambda>w. run_initializer ReaderInitializer w (path, net)) (set [0..<nat n])"
    by (rule inj_onI) simp
  then have "distinct (map (\<lambda>w. run_initializer ReaderInitializer w (path, net)) [0..<nat n])"
    by (simp add: distinct_map)
  with assms show ?thesis
    by (auto simp: spawn_def comp_def)
qed

text \<open>
  On Linux a configured count of \<open>2**31 - 1\<close> is a positive integer for which no pool is
  created: the constructor raises \<open>OverflowError\<close>.
\<close>

theorem start_other_cases_counterexample:
  "start_other \<lparr>max_query_workers = Some 2147483647, coin_NET = ''mainnet''\<rparr> (linux (Some 8)) =
     Inl OverflowError"
  by (simp add: start_other_def new_process_pool_def linux_def)

text \<open>
  C8, amended. \<open>start_other\<close> resolves the configured worker count in three cases: zero
  gives a thread executor with \<open>max_workers = 1\<close>, which serves with exactly one worker, on
  a thread of the server's process; a positive \<open>N\<close> that the platform's process pool
  accepts gives a process pool with \<open>max_workers = N\<close>, which serves with \<open>N\<close> separate
  processes; an absent count, when \<open>os.cpu_count()\<close> reports \<open>c\<close> cores and the pool
  accepts \<open>max(c, 4)\<close>, gives a process pool of \<open>max(c, 4)\<close> separate processes. A
  positive count beyond what the pool accepts makes \<open>start_other\<close> raise the
  constructor's exception. Whatever executor is returned, each of its workers has run the
  initializer once and holds a read-only connection to \<open>claims.db\<close> for the configured
  network, and no two workers hold the same connection.
\<close>

theorem start_other_cases:
  "(max_query_workers e = Some 0 \<longrightarrow>
      start_other e p = Inr (ThreadPoolExecutor 1 ReaderInitializer (''claims.db'', coin_NET e)) \<and>
      map runs_as (workers (ThreadPoolExecutor 1 ReaderInitializer (''claims.db'', coin_NET e))) =
        [InProcessThread]) \<and>
   (\<forall>n. 0 < n \<and> n \<le> max_pool_workers p \<and> max_query_workers e = Some n \<longrightarrow>
      start_other e p = Inr (ProcessPoolExecutor n ReaderInitializer (''claims.db'', coin_NET e)) \<and>
      map runs_as (workers (ProcessPoolExecutor n ReaderInitializer (''claims.db'', coin_NET e))) =
        replicate (nat n) SeparateProcess) \<and>
   (\<forall>c. max_query_workers e = None \<and> os_cpu_count p = Some c \<and> max c 4 \<le> max_pool_workers p \<longrightarrow>
      start_other e p =
        Inr (ProcessPoolExecutor (max c 4) ReaderInitializer (''claims.db'', coin_NET e)) \<and>
      map runs_as
        (workers (ProcessPoolExecutor (max c 4) ReaderInitializer (''claims.db'', coin_NET e))) =
        replicate (nat (max c 4)) SeparateProcess) \<and>
   (\<forall>n. max_pool_workers p < n \<and> 0 < n \<and> max_query_workers e = Some n \<longrightarrow>
      start_other e p = Inl (pool_refusal p)) \<and>
   (\<forall>ex. start_other e p = Inr ex \<longrightarrow>
      (\<forall>w \<in> set (workers ex).
         initializer_runs w = 1 \<and> index_path (index_conn w) = ''claims.db'' \<and>
         network (index_conn w) = coin_NET e \<and> read_only (index_conn w)) \<and>
      distinct (map index_conn (workers ex)))"
proof (intro conjI allI impI, goal_cases)
  case 1
  then show ?case by (simp add: start_other_def)
next
  case 2
  show ?case by (simp add: spawn_def)
next
  case (3 n)
  then show ?case by (simp add: start_other_def new_process_pool_def)
next
  case (4 n)
  show ?case by (rule workers_kind)
next
  case (5 c)
  then show ?case by (auto simp: start_other_def new_process_pool_def)
next
  case (6 c)
  show ?case by (rule workers_kind)
next
  case (7 n)
  then show ?case by (simp add: start_other_def new_process_pool_def)
next
  case (8 ex)
  from start_other_executor [OF 8] obtain n where
    "ex = ThreadPoolExecutor n ReaderInitializer (''claims.db'', coin_NET e) \<or>
     ex = ProcessPoolExecutor n ReaderInitializer (''claims.db'', coin_NET e)" ..
  then show ?case
    by (intro ballI) (rule workers_initialized)
next
  case (9 ex)
  from start_other_executor [OF 9] obtain n where
    "ex = ThreadPoolExecutor n ReaderInitializer (''claims.db'', coin_NET e) \<or>
     ex = ProcessPoolExecutor n ReaderInitializer (''claims.db'', coin_NET e)" ..
  then show ?case by (rule workers_own_connection)
qed

theorem start_other_cases_witness:
  "start_other \<lparr>max_query_workers = Some 0, coin_NET = ''mainnet''\<rparr> (linux (Some 8)) =
     Inr (ThreadPoolExecutor 1 ReaderInitializer (''claims.db'', ''mainnet'')) \<and>
   start_other \<lparr>max_query_workers = Some 3, coin_NET = ''mainnet''\<rparr> (linux (Some 8)) =
     Inr (ProcessPoolExecutor 3 ReaderInitializer (''claims.db'', ''mainnet'')) \<and>
   map runs_as (workers (ProcessPoolExecutor 3 ReaderInitializer (''claims.db'', ''mainnet''))) =
     [SeparateProcess, SeparateProcess, SeparateProcess] \<and>
   distinct (map index_conn
     (workers (ProcessPoolExecutor 3 ReaderInitializer (''claims.db'', ''mainnet'')))) \<and>
   start_other \<lparr>max_query_workers = None, coin_NET = ''mainnet''\<rparr> (linux (Some 2)) =
     Inr (ProcessPoolExecutor 4 ReaderInitializer (''claims.db'', ''mainnet'')) \<and>
   start_other \<lparr>max_query_workers = None, coin_NET = ''mainnet''\<rparr> (linux (Some 8)) =
     Inr (ProcessPoolExecutor 8 ReaderInitializer (''claims.db'', ''mainnet'')) \<and>
   start_other \<lparr>max_query_workers = Some 2147483647, coin_NET = ''mainnet''\<rparr> (linux (Some 8)) =
     Inl OverflowError"
proof -
  let ?e0 = "\<lparr>max_query_workers = Some 0, coin_NET = ''mainnet''\<rparr>"
  let ?e3 = "\<lparr>max_query_workers = Some 3, coin_NET = ''mainnet''\<rparr>"
  let ?eN = "\<lparr>max_query_workers = None, coin_NET = ''mainnet''\<rparr>"
  let ?eH = "\<lparr>max_query_workers = Some 2147483647, coin_NET = ''mainnet''\<rparr>"
  let ?pool3 = "ProcessPoolExecutor 3 ReaderInitializer (''claims.db'', ''mainnet'')"
  have zero: "max_query_workers ?e0 = Some 0"
    by simp
  have three: "0 < (3::int) \<and> 3 \<le> max_pool_workers (linux (Some 8)) \<and>
      max_query_workers ?e3 = Some 3"
    by (simp add: linux_def)
  have two: "max_query_workers ?eN = None \<and> os_cpu_count (linux (Some 2)) = Some 2 \<and>
      max 2 4 \<le> max_pool_workers (linux (Some 2))"
    by (simp add: linux_def)
  have eight: "max_query_workers ?eN = None \<and> os_cpu_count (linux (Some 8)) = Some 8 \<and>
      max 8 4 \<le> max_pool_workers (linux (Some 8))"
    by (simp add: linux_def)
  have huge: "max_pool_workers (linux (Some 8)) < 2147483647 \<and> 0 < (2147483647::int) \<and>
      max_query_workers ?eH = Some 2147483647"
    by (simp add: linux_def)
  note t0 = start_other_cases [of ?e0 "linux (Some 8)", THEN conjunct1, THEN mp, OF zero,
      THEN conjunct1]
  note t3 = start_other_cases [of ?e3 "linux (Some 8)", THEN conjunct2, THEN conjunct1,
      THEN spec, of 3, THEN mp, OF three]
  note own = start_other_cases [of ?e3 "linux (Some 8)", THEN conjunct2, THEN conjunct2,
      THEN conjunct2, THEN conjunct2, THEN spec, of ?pool3, THEN mp, THEN conjunct2]
  note t2 = start_other_cases [of ?eN "linux (Some 2)", THEN conjunct2, THEN conjunct2,
      THEN conjunct1, THEN spec, of 2, THEN mp, OF two, THEN conjunct1]
  note t8 = start_other_cases [of ?eN "linux (Some 8)", THEN conjunct2, THEN conjunct2,
      THEN conjunct1, THEN spec, of 8, THEN mp, OF eight, THEN conjunct1]
  note tH = start_other_cases [of ?eH "linux (Some 8)", THEN conjunct2, THEN conjunct2,
      THEN conjunct2, THEN conjunct1, THEN spec, of 2147483647, THEN mp, OF huge]
  have pool3: "start_other ?e3 (linux (Some 8)) = Inr ?pool3"
    using t3 by simp
  have kinds3: "map runs_as (workers ?pool3) = [SeparateProcess, SeparateProcess, SeparateProcess]"
    using t3 by (simp add: numeral_3_eq_3)
  have own3: "distinct (map index_conn (workers ?pool3))"
    using own pool3 by simp
  have refusal: "pool_refusal (linux (Some 8)) = OverflowError"
    by (simp add: linux_def)
  from t0 pool3 kinds3 own3 t2 t8 tH refusal show ?thesis
    by simp
qed

section \<open>Errors never disconnect a session\<close>

lemma handle_request_open:
  "\<not> closing c \<Longrightarrow> \<not> closing (handle_request max_errors c out)"
  by (cases out) (simp_all add: handle_request_def count_error_def max_errors_def Let_def)

lemma handle_request_errors:
  "\<not> closing c \<Longrightarrow>
   errors (handle_request max_errors c out) = errors c + (if out = Errored then 1 else 0)"
  by (cases out) (simp_all add: handle_request_def count_error_def Let_def)

lemma serve_open:
  "\<not> closing c \<Longrightarrow>
   \<not> closing (serve max_errors c outs) \<and>
   errors (serve max_errors c outs) = errors c + length (filter (\<lambda>out. out = Errored) outs)"
proof (induction outs arbitrary: c)
  case Nil
  then show ?case by (simp add: serve_def)
next
  case (Cons out outs)
  from Cons.prems have o: "\<not> closing (handle_request max_errors c out)"
    by (rule handle_request_open)
  from Cons.IH [OF o] handle_request_errors [OF Cons.prems, of out]
  show ?case by (simp add: serve_def)
qed

text \<open>A finite tolerance does disconnect: the session stops counting at the second error.\<close>

lemma finite_tolerance_disconnects:
  "closing (serve (enat 2) \<lparr>errors = 0, closing = False\<rparr> [Errored, Answered, Errored, Errored])
   \<and> errors (serve (enat 2) \<lparr>errors = 0, closing = False\<rparr> [Errored, Answered, Errored, Errored]) = 2"
  by (simp add: serve_def handle_request_def count_error_def Let_def)

text \<open>
  C9. With the infinite tolerance \<open>max_errors\<close>, a session that is open stays open after
  any sequence of requests, however many of them end in an error: every error is counted,
  the counter never reaches the tolerance, and the session goes on serving the requests that
  follow.
\<close>

theorem session_never_disconnected:
  "\<not> closing c \<Longrightarrow>
   \<not> closing (serve max_errors c outs) \<and>
   errors (serve max_errors c outs) = errors c + length (filter (\<lambda>out. out = Errored) outs) \<and>
   serve max_errors c (outs @ later) = serve max_errors (serve max_errors c outs) later"
  using serve_open [of c outs] by (simp add: serve_def)

theorem session_never_disconnected_witness:
  "\<not> closing (serve max_errors \<lparr>errors = 0, closing = False\<rparr> [Errored, Answered, Errored, Errored]) \<and>
   errors (serve max_errors \<lparr>errors = 0, closing = False\<rparr> [Errored, Answered, Errored, Errored]) = 3"
  using session_never_disconnected
    [of "\<lparr>errors = 0, closing = False\<rparr>" "[Errored, Answered, Errored, Errored]" "[]"]
  by simp

section \<open>Normalization of a claim\<close>

text \<open>The two-key lookups of \<open>format_claim_from_daemon\<close>, written out.\<close>

lemma get_from_two_keys:
  "get_from_possible_keys d [k, k'] =
     (case map_of d k of
        Some v \<Rightarrow> v
      | None \<Rightarrow> (case map_of d k' of Some v \<Rightarrow> v | None \<Rightarrow> PNone))"
  by (simp split: option.splits)

text \<open>
  A record built by \<open>claim_result\<close> starts with the twelve entries of the result literal.
\<close>

lemma claim_result_shape:
  assumes "claim_result s c name claim_id address = Inr r"
  shows "\<exists>txid nout depth hex_value rest.
     r = [(''name'', name),
          (''claim_id'', claim_id),
          (''txid'', txid),
          (''nout'', nout),
          (''amount'', get_from_possible_keys c [''amount'', ''nAmount'']),
          (''depth'', depth),
          (''height'', get_from_possible_keys c [''height'', ''nHeight'']),
          (''value'', PStr hex_value),
          (''address'', PStr address),
          (''supports'', PList []),
          (''effective_amount'',
             get_from_possible_keys c [''effective amount'', ''nEffectiveAmount'']),
          (''valid_at_height'',
             get_from_possible_keys c [''valid at height'', ''nValidAtHeight''])] @ rest"
  using assms
  unfolding claim_result_def bind_def Let_def
  by (auto split: sum.splits option.splits simp del: get_from_possible_keys.simps)

lemma claim_result_fields:
  assumes "claim_result s c name claim_id address = Inr r"
  shows "map_of r ''amount'' = Some (get_from_possible_keys c [''amount'', ''nAmount''])"
    and "map_of r ''height'' = Some (get_from_possible_keys c [''height'', ''nHeight''])"
    and "map_of r ''effective_amount'' =
           Some (get_from_possible_keys c [''effective amount'', ''nEffectiveAmount''])"
    and "map_of r ''valid_at_height'' =
           Some (get_from_possible_keys c [''valid at height'', ''nValidAtHeight''])"
    and "map_of r ''value'' \<noteq> None"
    and "r \<noteq> []"
  using claim_result_shape [OF assms]
  by (auto simp del: get_from_possible_keys.simps)

text \<open>Without a height that is a number, \<open>claim_result\<close> stops at the depth.\<close>

lemma claim_result_no_height:
  assumes "as_int (get_from_possible_keys c [''height'', ''nHeight'']) = None"
  shows "\<exists>e. claim_result s c name claim_id address = Inl e"
    and "map_of c ''txid'' = Some txid \<Longrightarrow> map_of c ''n'' = Some nout \<Longrightarrow>
         claim_result s c name claim_id address = Inl TypeError"
  using assms
  unfolding claim_result_def bind_def Let_def getitem_def
  by (simp_all split: sum.splits option.splits del: get_from_possible_keys.simps)

text \<open>
  The two ways \<open>format_claim_from_daemon\<close> returns: the empty record, or the result built
  for a claim that is not empty and is found in the index.
\<close>

lemma format_claim_cases:
  assumes "format_claim_from_daemon s claim name0 = Inr r"
  shows "r = [] \<or>
         (\<exists>c name claim_id info_address address.
            claim = Some c \<and> c \<noteq> [] \<and> map_of c ''claimId'' = Some claim_id \<and>
            sql_get_claims s claim_id = Some info_address \<and>
            claim_result s c name claim_id address = Inr r)"
  using assms
  unfolding format_claim_from_daemon_def bind_def getitem_def
  by (auto split: sum.splits option.splits if_splits)

lemma format_claim_found:
  assumes "c \<noteq> []" and "map_of c ''claimId'' = Some claim_id"
    and "sql_get_claims s claim_id = Some info_address"
  shows "format_claim_from_daemon s (Some c) name0 =
           bind (claim_name c name0) (\<lambda>name.
           bind (decode_utf8 info_address) (\<lambda>address.
           claim_result s c name claim_id address))"
  using assms
  unfolding format_claim_from_daemon_def bind_def getitem_def
  by (simp split: sum.splits)

lemma sample_claim_format:
  "format_claim_from_daemon sample_session (Some (sample_claim ''c1'' 90)) PNone =
     Inr (sample_record ''c1'' 90)"
  "format_claim_from_daemon sample_session (Some (sample_claim ''c3'' 95)) PNone =
     Inr (sample_record ''c3'' 95)"
  by (simp_all add: format_claim_from_daemon_def sample_claim_def sample_record_def bind_def
      claim_name_def getitem_def sample_session_def ustr_def decode_utf8_def claim_result_def
      hexlify_legacy_def encode_latin1_def hexlify_def hex_digit_def)

text \<open>
  C5. Whenever normalization yields a canonical record, its \<open>amount\<close>, \<open>height\<close>,
  \<open>effective_amount\<close> and \<open>valid_at_height\<close> are the raw claim's value under the current
  name (\<open>amount\<close>, \<open>height\<close>, \<open>effective amount\<close>, \<open>valid at height\<close>) when that key is
  present, else the value under the legacy alias (\<open>nAmount\<close>, \<open>nHeight\<close>,
  \<open>nEffectiveAmount\<close>, \<open>nValidAtHeight\<close>) when that one is present, else \<open>None\<close>. So a
  claim holding both \<open>amount\<close> and \<open>nAmount\<close> yields the value of \<open>amount\<close>.
\<close>

theorem format_claim_field_precedence:
  assumes "format_claim_from_daemon s claim name0 = Inr r" and "r \<noteq> []"
  shows "\<exists>c. claim = Some c \<and>
     map_of r ''amount'' =
       Some (case map_of c ''amount'' of Some v \<Rightarrow> v
             | None \<Rightarrow> (case map_of c ''nAmount'' of Some v \<Rightarrow> v | None \<Rightarrow> PNone)) \<and>
     map_of r ''height'' =
       Some (case map_of c ''height'' of Some v \<Rightarrow> v
             | None \<Rightarrow> (case map_of c ''nHeight'' of Some v \<Rightarrow> v | None \<Rightarrow> PNone)) \<and>
     map_of r ''effective_amount'' =
       Some (case map_of c ''effective amount'' of Some v \<Rightarrow> v
             | None \<Rightarrow> (case map_of c ''nEffectiveAmount'' of Some v \<Rightarrow> v | None \<Rightarrow> PNone)) \<and>
     map_of r ''valid_at_height'' =
       Some (case map_of c ''valid at height'' of Some v \<Rightarrow> v
             | None \<Rightarrow> (case map_of c ''nValidAtHeight'' of Some v \<Rightarrow> v | None \<Rightarrow> PNone)) \<and>
     (\<forall>a. map_of c ''amount'' = Some a \<longrightarrow> map_of r ''amount'' = Some a)"
proof -
  from format_claim_cases [OF assms(1)] assms(2)
  obtain c name claim_id address where c: "claim = Some c"
    and r: "claim_result s c name claim_id address = Inr r"
    by blast
  have fields:
    "map_of r ''amount'' =
       Some (case map_of c ''amount'' of Some v \<Rightarrow> v
             | None \<Rightarrow> (case map_of c ''nAmount'' of Some v \<Rightarrow> v | None \<Rightarrow> PNone))"
    "map_of r ''height'' =
       Some (case map_of c ''height'' of Some v \<Rightarrow> v
             | None \<Rightarrow> (case map_of c ''nHeight'' of Some v \<Rightarrow> v | None \<Rightarrow> PNone))"
    "map_of r ''effective_amount'' =
       Some (case map_of c ''effective amount'' of Some v \<Rightarrow> v
             | None \<Rightarrow> (case map_of c ''nEffectiveAmount'' of Some v \<Rightarrow> v | None \<Rightarrow> PNone))"
    "map_of r ''valid_at_height'' =
       Some (case map_of c ''valid at height'' of Some v \<Rightarrow> v
             | None \<Rightarrow> (case map_of c ''nValidAtHeight'' of Some v \<Rightarrow> v | None \<Rightarrow> PNone))"
    using claim_result_fields(1-4) [OF r] by (simp_all only: get_from_two_keys)
  have "\<forall>a. map_of c ''amount'' = Some a \<longrightarrow> map_of r ''amount'' = Some a"
    using fields(1) by simp
  with fields c show ?thesis
    by blast
qed

theorem format_claim_field_precedence_witness:
  "map_of (sample_record ''c1'' 90) ''height'' = Some (PInt 90) \<and>
   (\<exists>r. format_claim_from_daemon sample_session
          (Some ((''amount'', PInt 5) # (''nAmount'', PInt 6) # sample_claim ''c1'' 90)) PNone =
          Inr r \<and> map_of r ''amount'' = Some (PInt 5))"
proof -
  let ?c = "(''amount'', PInt 5) # (''nAmount'', PInt 6) # sample_claim ''c1'' 90"
  let ?r = "sample_record ''c1'' 90"
  have nonempty: "?r \<noteq> []"
    by (simp add: sample_record_def)
  have both: "format_claim_from_daemon sample_session (Some ?c) PNone =
      Inr (?r[4 := (''amount'', PInt 5)])"
    by (simp add: format_claim_from_daemon_def sample_claim_def sample_record_def bind_def
      claim_name_def getitem_def sample_session_def ustr_def decode_utf8_def claim_result_def
      hexlify_legacy_def encode_latin1_def hexlify_def hex_digit_def)
  have nonempty': "?r[4 := (''amount'', PInt 5)] \<noteq> []"
    by (simp add: sample_record_def)
  have a: "map_of (sample_claim ''c1'' 90) ''height'' = None"
    and b: "map_of (sample_claim ''c1'' 90) ''nHeight'' = Some (PInt 90)"
    and c: "map_of ?c ''amount'' = Some (PInt 5)"
    by (simp_all add: sample_claim_def)
  from format_claim_field_precedence [OF sample_claim_format(1) nonempty] a b
  have "map_of ?r ''height'' = Some (PInt 90)"
    by auto
  moreover from format_claim_field_precedence [OF both nonempty'] c
  have "map_of (?r[4 := (''amount'', PInt 5)]) ''amount'' = Some (PInt 5)"
    by auto
  ultimately show ?thesis
    using both by blast
qed

text \<open>
  A claim named by the single code point \<open>0xE9\<close>: its Latin-1 encoding, the byte
  \<open>0xE9\<close>, is not UTF-8, so decoding the name raises before the index is consulted,
  although the index has no row for the claim id.
\<close>

theorem format_claim_unindexed_counterexample:
  "sql_get_claims sample_session (PStr (ustr ''c9'')) = None \<and>
   format_claim_from_daemon sample_session
     (Some [(''name'', PStr [233]), (''claimId'', PStr (ustr ''c9''))]) PNone =
     Inl UnicodeDecodeError"
  by (simp add: format_claim_from_daemon_def bind_def claim_name_def decode_legacy_def
      encode_latin1_def decode_utf8_def sample_session_def ustr_def)

text \<open>
  C6, amended. For every raw claim that is not empty, carries a \<open>claimId\<close> for which the
  index has no row and whose \<open>name\<close>, when it has one, decodes from the legacy encoding,
  normalization returns the empty record, whatever the other fields of the claim are; it
  raises nothing.
\<close>

theorem format_claim_unindexed:
  assumes "c \<noteq> []" and "map_of c ''claimId'' = Some claim_id"
    and "sql_get_claims s claim_id = None"
    and "\<forall>n. map_of c ''name'' = Some n \<longrightarrow> (\<exists>t. decode_legacy n = Inr t)"
  shows "format_claim_from_daemon s (Some c) name0 = Inr []"
proof -
  from assms(4) obtain name where "claim_name c name0 = Inr name"
    by (cases "map_of c ''name''") (auto simp: claim_name_def bind_def)
  with assms(1-3) show ?thesis
    by (simp add: format_claim_from_daemon_def bind_def getitem_def)
qed

theorem format_claim_unindexed_witness:
  "format_claim_from_daemon sample_session (Some (sample_claim ''c9'' 90)) PNone = Inr [] \<and>
   format_claim_from_daemon sample_session
     (Some ((''name'', PStr [195, 169]) # sample_claim ''c9'' 90)) PNone = Inr []"
proof -
  have a: "sample_claim ''c9'' 90 \<noteq> []"
    and b: "map_of (sample_claim ''c9'' 90) ''claimId'' = Some (PStr (ustr ''c9''))"
    and b': "map_of ((''name'', PStr [195, 169]) # sample_claim ''c9'' 90) ''claimId'' =
        Some (PStr (ustr ''c9''))"
    and c: "\<forall>n. map_of (sample_claim ''c9'' 90) ''name'' = Some n \<longrightarrow>
        (\<exists>t. decode_legacy n = Inr t)"
    by (simp_all add: sample_claim_def)
  have d: "sql_get_claims sample_session (PStr (ustr ''c9'')) = None"
    by (simp add: sample_session_def ustr_def)
  have "decode_legacy (PStr [195, 169]) = Inr [233]"
    by (simp add: decode_legacy_def encode_latin1_def decode_utf8_def is_cont_def)
  then have c': "\<forall>n. map_of ((''name'', PStr [195, 169]) # sample_claim ''c9'' 90) ''name'' = Some n \<longrightarrow>
        (\<exists>t. decode_legacy n = Inr t)"
    by simp
  have a': "(''name'', PStr [195, 169]) # sample_claim ''c9'' 90 \<noteq> []"
    by simp
  from format_claim_unindexed [OF a b d c, of PNone] format_claim_unindexed [OF a' b' d c', of PNone]
  show ?thesis by simp
qed

text \<open>
  C10. For a raw claim that is not empty and whose \<open>claimId\<close> the index knows, with neither
  \<open>height\<close> nor \<open>nHeight\<close> present, the height lookup yields \<open>None\<close> and normalization
  ends in an exception instead of a record; when nothing else is wrong with the claim (its
  name and the indexed address decode, \<open>txid\<close> and \<open>n\<close> are present) the exception is the
  \<open>TypeError\<close> of \<open>db_height - None + 1\<close>.
\<close>

theorem format_claim_without_height:
  assumes "c \<noteq> []" and "map_of c ''claimId'' = Some claim_id"
    and "sql_get_claims s claim_id = Some info_address"
    and "map_of c ''height'' = None" and "map_of c ''nHeight'' = None"
  shows "get_from_possible_keys c [''height'', ''nHeight''] = PNone \<and>
     (\<exists>e. format_claim_from_daemon s (Some c) name0 = Inl e) \<and>
     (\<forall>name address txid nout.
        claim_name c name0 = Inr name \<and> decode_utf8 info_address = Inr address \<and>
        map_of c ''txid'' = Some txid \<and> map_of c ''n'' = Some nout \<longrightarrow>
        format_claim_from_daemon s (Some c) name0 = Inl TypeError)"
proof -
  have h: "get_from_possible_keys c [''height'', ''nHeight''] = PNone"
    using assms(4,5) by simp
  then have no: "as_int (get_from_possible_keys c [''height'', ''nHeight'']) = None"
    by (simp only: as_int.simps)
  have "\<exists>e. format_claim_from_daemon s (Some c) name0 = Inl e"
  proof (cases "claim_name c name0")
    case (Inl e)
    then show ?thesis
      unfolding format_claim_found [OF assms(1-3)] by (simp add: bind_def)
  next
    case name: (Inr name)
    show ?thesis
    proof (cases "decode_utf8 info_address")
      case (Inl e)
      with name show ?thesis
        unfolding format_claim_found [OF assms(1-3)] by (simp add: bind_def)
    next
      case (Inr address)
      from claim_result_no_height(1) [OF no, of s name claim_id address]
      obtain e where "claim_result s c name claim_id address = Inl e" ..
      with name Inr show ?thesis
        unfolding format_claim_found [OF assms(1-3)] by (simp add: bind_def)
    qed
  qed
  moreover have "format_claim_from_daemon s (Some c) name0 = Inl TypeError"
    if "claim_name c name0 = Inr name \<and> decode_utf8 info_address = Inr address \<and>
        map_of c ''txid'' = Some txid \<and> map_of c ''n'' = Some nout"
    for name address txid nout
  proof -
    from that claim_result_no_height(2) [OF no, of txid nout s name claim_id address]
    have "claim_result s c name claim_id address = Inl TypeError"
      by blast
    with that show ?thesis
      unfolding format_claim_found [OF assms(1-3)] by (simp add: bind_def)
  qed
  ultimately show ?thesis
    using h by blast
qed

theorem format_claim_without_height_witness:
  "format_claim_from_daemon sample_session
     (Some [(''claimId'', PStr (ustr ''c1'')), (''txid'', PStr (ustr ''ab'')), (''n'', PInt 0),
            (''value'', PStr (ustr ''v''))]) PNone = Inl TypeError"
proof -
  let ?c = "[(''claimId'', PStr (ustr ''c1'')), (''txid'', PStr (ustr ''ab'')), (''n'', PInt 0),
            (''value'', PStr (ustr ''v''))]"
  have a: "?c \<noteq> []" and b: "map_of ?c ''claimId'' = Some (PStr (ustr ''c1''))"
    and d: "map_of ?c ''height'' = None" and e: "map_of ?c ''nHeight'' = None"
    by simp_all
  have c: "sql_get_claims sample_session (PStr (ustr ''c1'')) = Some ''bK''"
    by (simp add: sample_session_def)
  have f: "claim_name ?c PNone = Inr PNone \<and> decode_utf8 ''bK'' = Inr (ustr ''bK'') \<and>
        map_of ?c ''txid'' = Some (PStr (ustr ''ab'')) \<and> map_of ?c ''n'' = Some (PInt 0)"
    by (simp add: claim_name_def decode_utf8_def ustr_def)
  from format_claim_without_height [OF a b c d e, of PNone] f
  show ?thesis by blast
qed

section \<open>Batches of claims\<close>

text \<open>
  The loop of \<open>batched_formatted_claims_from_daemon\<close> returns a list exactly when every
  claim it keeps normalizes, and the list then extends the one built so far by the
  normalizations of the kept claims, in order.
\<close>

lemma format_each_Inr:
  "format_each s claims acc = Inr rs \<longleftrightarrow>
     (\<exists>rs'. rs = acc @ rs' \<and>
        list_all2 (\<lambda>c r. format_claim_from_daemon s c PNone = Inr r) (filter keeps claims) rs')"
proof (induction claims arbitrary: acc)
  case Nil
  then show ?case by auto
next
  case (Cons c cs)
  show ?case
  proof (cases "keeps c")
    case False
    then show ?thesis using Cons.IH [of acc] by simp
  next
    case True
    show ?thesis
    proof (cases "format_claim_from_daemon s c PNone")
      case (Inl e)
      with True show ?thesis by (simp add: list_all2_Cons1)
    next
      case (Inr r)
      with True show ?thesis
        using Cons.IH [of "acc @ [r]"] by (auto simp: list_all2_Cons1)
    qed
  qed
qed

text \<open>Claims that are dropped take no part in the outcome, be it a list or an exception.\<close>

lemma format_each_filter:
  "format_each s (filter keeps claims) acc = format_each s claims acc"
  by (induction claims arbitrary: acc) (simp_all split: sum.splits)


text \<open>\<open>dict(zip(keys, values))\<close> as a lookup.\<close>

lemma foldl_update:
  "foldl (\<lambda>m (k, v). m(k \<mapsto> v)) m kvs = m ++ map_of (rev kvs)"
  by (induction kvs arbitrary: m) auto

lemma dict_of_map_of: "dict_of kvs = map_of (rev kvs)"
  by (simp add: dict_of_def foldl_update)

lemma dict_of_zip_nth:
  assumes "distinct ks" and "i < length ks" and "i < length vs"
  shows "dict_of (zip ks vs) (ks ! i) = Some (vs ! i)"
proof -
  have "distinct (map fst (rev (zip ks vs)))"
    using assms(1) by (simp add: rev_map [symmetric] map_fst_zip_take)
  moreover have "(ks ! i, vs ! i) \<in> set (rev (zip ks vs))"
    using assms(2,3) by (auto simp: set_zip)
  ultimately show ?thesis
    unfolding dict_of_map_of by (rule map_of_is_SomeI)
qed

lemma dict_of_zip_beyond:
  assumes "distinct ks" and "length vs \<le> i" and "i < length ks"
  shows "dict_of (zip ks vs) (ks ! i) = None"
proof -
  have "ks ! i \<notin> fst ` set (zip ks vs)"
  proof
    assume "ks ! i \<in> fst ` set (zip ks vs)"
    then obtain j where "j < length ks" "j < length vs" "ks ! j = ks ! i"
      by (auto simp: set_zip)
    with assms show False
      by (simp add: nth_eq_iff_index_eq)
  qed
  then show ?thesis
    unfolding dict_of_map_of by (simp add: map_of_eq_None_iff)
qed

text \<open>
  Once an element has been filtered out, every later position of the filtered list holds
  an element that stood further to the right in the original list.
\<close>

lemma filter_nth_later:
  assumes "j < length xs" and "\<not> P (xs ! j)" and "j \<le> i" and "i < length (filter P xs)"
  shows "\<exists>k. i < k \<and> k < length xs \<and> P (xs ! k) \<and> filter P xs ! i = xs ! k"
proof -
  let ?ys = "take (Suc i) xs" and ?zs = "drop (Suc i) xs"
  have i: "i < length xs"
    using assms(4) length_filter_le [of P xs] by linarith
  have split: "filter P xs = filter P ?ys @ filter P ?zs"
    by (metis append_take_drop_id filter_append)
  have "xs ! j \<in> set ?ys"
    using assms(3) i by (auto simp: in_set_conv_nth intro!: exI [of _ j])
  then have "length (filter P ?ys) < length ?ys"
    using assms(2) by (rule length_filter_less)
  with i have short: "length (filter P ?ys) \<le> i"
    by simp
  with assms(4) split have "i - length (filter P ?ys) < length (filter P ?zs)"
    by (metis add_diff_inverse_nat length_append nat_add_left_cancel_less not_less)
  then have "filter P ?zs ! (i - length (filter P ?ys)) \<in> set (filter P ?zs)"
    by (rule nth_mem)
  moreover have "filter P xs ! i = filter P ?zs ! (i - length (filter P ?ys))"
    using short split by (metis nth_append not_less)
  ultimately have "filter P xs ! i \<in> set ?zs" and kept: "P (filter P xs ! i)"
    by auto
  then obtain m where "m < length ?zs" and "?zs ! m = filter P xs ! i"
    by (auto simp: in_set_conv_nth)
  then have "i < Suc i + m \<and> Suc i + m < length xs \<and> filter P xs ! i = xs ! (Suc i + m)"
    by auto
  with kept show ?thesis
    by metis
qed

text \<open>Normalization does not depend on what the daemon answers to a batch.\<close>

lemma format_claim_other_daemon:
  "format_claim_from_daemon (s\<lparr>daemon_getclaimsbyids := f\<rparr>) claim name0 =
     format_claim_from_daemon s claim name0"
  by (simp add: format_claim_from_daemon_def claim_result_def
      cong: option.case_cong if_cong)

lemma sample_claims_kept:
  "filter keeps sample_claims = [Some (sample_claim ''c1'' 90), Some (sample_claim ''c3'' 95)]"
  by (simp add: sample_claims_def keeps_def dict_get_def sample_claim_def ustr_def)

lemma sample_claim_kept: "keeps (Some (sample_claim cid h))"
  by (simp add: keeps_def dict_get_def sample_claim_def ustr_def)

lemma sample_batch:
  "format_each sample_session (filter keeps sample_claims) [] =
     Inr [sample_record ''c1'' 90, sample_record ''c3'' 95]"
  by (simp add: sample_claims_kept sample_claim_format sample_claim_kept)




text \<open>
  C1. When the daemon answers and \<open>claimtrie_getclaimsbyids\<close> returns a mapping, the
  mapping is \<open>dict(zip(claim_ids, recs))\<close>, where \<open>recs\<close> are the normalizations of the
  kept claims, in order. With distinct ids and one daemon record for each id: if no claim
  is dropped, every id maps to the normalization of the record at its own position; if the
  claim at a position \<open>j\<close> is dropped, every id from position \<open>j\<close> on that still gets a
  record gets the normalization of a record from a later position, that is of another id,
  there are fewer records than ids, and the ids beyond the last record are not in the
  mapping.
\<close>

theorem getclaimsbyids_zips_filtered:
  assumes "daemon_getclaimsbyids s claim_ids = Inr claims"
    and "fst (claimtrie_getclaimsbyids s tr claim_ids) = Inr m"
  shows "\<exists>recs.
     list_all2 (\<lambda>c r. format_claim_from_daemon s c PNone = Inr r) (filter keeps claims) recs \<and>
     m = dict_of (zip claim_ids recs) \<and>
     (distinct claim_ids \<and> length claims = length claim_ids \<longrightarrow>
        (list_all keeps claims \<longrightarrow>
           (\<forall>i < length claim_ids.
              format_claim_from_daemon s (claims ! i) PNone = Inr (recs ! i) \<and>
              m (claim_ids ! i) = Some (recs ! i))) \<and>
        (\<forall>j < length claims. \<not> keeps (claims ! j) \<longrightarrow>
           (\<forall>i. j \<le> i \<and> i < length recs \<longrightarrow>
              (\<exists>k. i < k \<and> k < length claims \<and> claim_ids ! k \<noteq> claim_ids ! i \<and>
                 keeps (claims ! k) \<and>
                 format_claim_from_daemon s (claims ! k) PNone = Inr (recs ! i) \<and>
                 m (claim_ids ! i) = Some (recs ! i))) \<and>
           length recs < length claim_ids \<and>
           (\<forall>i. length recs \<le> i \<and> i < length claim_ids \<longrightarrow> m (claim_ids ! i) = None)))"
proof -
  let ?norm = "\<lambda>c r. format_claim_from_daemon s c PNone = Inr r"
  let ?kept = "filter keeps claims"
  from assms obtain recs where run: "format_each s claims [] = Inr recs"
    and m: "m = dict_of (zip claim_ids recs)"
    by (auto simp: claimtrie_getclaimsbyids_def batched_formatted_claims_from_daemon_def Let_def
        split: sum.splits)
  from run have all: "list_all2 ?norm ?kept recs"
    by (simp add: format_each_Inr)
  then have len: "length recs = length ?kept"
    by (simp add: list_all2_lengthD)
  have nth: "format_claim_from_daemon s (?kept ! i) PNone = Inr (recs ! i)" if "i < length recs" for i
    using all that len by (simp add: list_all2_conv_all_nth)
  have aligned: "format_claim_from_daemon s (claims ! i) PNone = Inr (recs ! i) \<and>
      m (claim_ids ! i) = Some (recs ! i)"
    if "distinct claim_ids" "length claims = length claim_ids" "list_all keeps claims"
      "i < length claim_ids" for i
  proof -
    from that(3) have "?kept = claims"
      by (simp add: list_all_iff)
    with that(2,4) len nth [of i] have "format_claim_from_daemon s (claims ! i) PNone = Inr (recs ! i)"
      and "i < length recs"
      by simp_all
    with that(1,4) show ?thesis
      by (simp add: m dict_of_zip_nth)
  qed
  have shifted: "\<exists>k. i < k \<and> k < length claims \<and> claim_ids ! k \<noteq> claim_ids ! i \<and>
      keeps (claims ! k) \<and> format_claim_from_daemon s (claims ! k) PNone = Inr (recs ! i) \<and>
      m (claim_ids ! i) = Some (recs ! i)"
    if "distinct claim_ids" "length claims = length claim_ids" "j < length claims"
      "\<not> keeps (claims ! j)" "j \<le> i \<and> i < length recs" for i j
  proof -
    from that(5) len have i: "i < length ?kept" by simp
    from filter_nth_later [OF that(3,4) _ i] that(5)
    obtain k where k: "i < k" "k < length claims" "keeps (claims ! k)" "?kept ! i = claims ! k"
      by blast
    from k(1,2) that(1,2) have "claim_ids ! k \<noteq> claim_ids ! i"
      by (simp add: nth_eq_iff_index_eq)
    moreover from nth [of i] that(5) k(4)
    have "format_claim_from_daemon s (claims ! k) PNone = Inr (recs ! i)"
      by simp
    moreover from k(1,2) that(1,2,5) have "m (claim_ids ! i) = Some (recs ! i)"
      by (simp add: m dict_of_zip_nth)
    ultimately show ?thesis
      using k by blast
  qed
  have fewer: "length recs < length claim_ids"
    if "length claims = length claim_ids" "j < length claims" "\<not> keeps (claims ! j)" for j
  proof -
    from that(2) have "claims ! j \<in> set claims" by simp
    then have "length ?kept < length claims"
      using that(3) by (rule length_filter_less)
    with that(1) len show ?thesis by simp
  qed
  have absent: "m (claim_ids ! i) = None"
    if "distinct claim_ids" "length recs \<le> i \<and> i < length claim_ids" for i
    using that by (simp add: m dict_of_zip_beyond)
  show ?thesis
  proof (intro exI [of _ recs] conjI impI allI, goal_cases)
    case 1
    show ?case by (rule all)
  next
    case 2
    show ?case by (rule m)
  next
    case (3 i)
    with aligned [of i] show ?case by blast
  next
    case (4 i)
    with aligned [of i] show ?case by blast
  next
    case (5 j i)
    with shifted [of j i] show ?case by blast
  next
    case (6 j)
    with fewer [of j] show ?case by blast
  next
    case (7 j i)
    with absent [of i] show ?case by blast
  qed
qed

theorem getclaimsbyids_zips_filtered_witness:
  "fst (claimtrie_getclaimsbyids sample_session sample_trace
          [ustr ''c1'', ustr ''c2'', ustr ''c3'']) =
     Inr (dict_of (zip [ustr ''c1'', ustr ''c2'', ustr ''c3'']
            [sample_record ''c1'' 90, sample_record ''c3'' 95])) \<and>
   dict_of (zip [ustr ''c1'', ustr ''c2'', ustr ''c3'']
      [sample_record ''c1'' 90, sample_record ''c3'' 95]) (ustr ''c1'') =
     Some (sample_record ''c1'' 90) \<and>
   dict_of (zip [ustr ''c1'', ustr ''c2'', ustr ''c3'']
      [sample_record ''c1'' 90, sample_record ''c3'' 95]) (ustr ''c2'') =
     Some (sample_record ''c3'' 95) \<and>
   dict_of (zip [ustr ''c1'', ustr ''c2'', ustr ''c3'']
      [sample_record ''c1'' 90, sample_record ''c3'' 95]) (ustr ''c3'') = None \<and>
   fst (claimtrie_getclaimsbyids
          (sample_session\<lparr>daemon_getclaimsbyids :=
             (\<lambda>ids. Inr [Some (sample_claim ''c1'' 90), Some (sample_claim ''c3'' 95)])\<rparr>)
          sample_trace [ustr ''c1'', ustr ''c3'']) =
     Inr (dict_of (zip [ustr ''c1'', ustr ''c3'']
            [sample_record ''c1'' 90, sample_record ''c3'' 95])) \<and>
   dict_of (zip [ustr ''c1'', ustr ''c3'']
      [sample_record ''c1'' 90, sample_record ''c3'' 95]) (ustr ''c3'') =
     Some (sample_record ''c3'' 95)"
proof -
  let ?ids = "[ustr ''c1'', ustr ''c2'', ustr ''c3'']"
  let ?recs = "[sample_record ''c1'' 90, sample_record ''c3'' 95]"
  let ?m = "dict_of (zip ?ids ?recs)"
  let ?s' = "sample_session\<lparr>daemon_getclaimsbyids :=
             (\<lambda>ids. Inr [Some (sample_claim ''c1'' 90), Some (sample_claim ''c3'' 95)])\<rparr>"
  let ?ids' = "[ustr ''c1'', ustr ''c3'']"
  let ?claims' = "[Some (sample_claim ''c1'' 90), Some (sample_claim ''c3'' 95)]"
  let ?m' = "dict_of (zip ?ids' ?recs)"
  have a: "daemon_getclaimsbyids sample_session ?ids = Inr sample_claims"
    by (simp add: sample_session_def)
  have run: "fst (claimtrie_getclaimsbyids sample_session sample_trace ?ids) = Inr ?m"
    using sample_batch
    by (simp add: claimtrie_getclaimsbyids_def batched_formatted_claims_from_daemon_def Let_def
        a format_each_filter)
  have d: "distinct ?ids \<and> length sample_claims = length ?ids"
    by (simp add: ustr_def sample_claims_def)
  have dropped: "1 < length sample_claims" "\<not> keeps (sample_claims ! 1)"
    by (simp_all add: sample_claims_def keeps_def dict_get_def)
  have c1: "?m (ustr ''c1'') = Some (sample_record ''c1'' 90)"
    by (simp add: dict_of_def ustr_def)
  have c23: "?m (ustr ''c2'') = Some (sample_record ''c3'' 95) \<and> ?m (ustr ''c3'') = None"
  proof (rule exE [OF getclaimsbyids_zips_filtered [OF a run]], goal_cases)
    case (1 recs)
    from 1 [THEN conjunct1] have r: "recs = ?recs"
      by (auto simp: sample_claims_kept list_all2_Cons1 sample_claim_format)
    note after = 1 [THEN conjunct2, THEN conjunct2, THEN mp, OF d, THEN conjunct2,
      rule_format, OF dropped]
    have i1: "(1::nat) \<le> 1 \<and> 1 < length recs" and i2: "length recs \<le> 2 \<and> 2 < length ?ids"
      by (simp_all add: r)
    from after [THEN conjunct1, rule_format, OF i1]
    have "?m (?ids ! 1) = Some (recs ! 1)"
      by (elim exE conjE)
    moreover from after [THEN conjunct2, THEN conjunct2, rule_format, OF i2]
    have "?m (?ids ! 2) = None" .
    ultimately show ?case
      by (simp add: r)
  qed
  have a': "daemon_getclaimsbyids ?s' ?ids' = Inr ?claims'"
    by simp
  have run': "fst (claimtrie_getclaimsbyids ?s' sample_trace ?ids') = Inr ?m'"
    by (simp add: claimtrie_getclaimsbyids_def batched_formatted_claims_from_daemon_def Let_def
        format_claim_other_daemon sample_claim_format sample_claim_kept)
  have d': "distinct ?ids' \<and> length ?claims' = length ?ids'" and kept: "list_all keeps ?claims'"
    by (simp_all add: ustr_def sample_claim_kept)
  have c3': "?m' (ustr ''c3'') = Some (sample_record ''c3'' 95)"
  proof (rule exE [OF getclaimsbyids_zips_filtered [OF a' run']], goal_cases)
    case (1 recs)
    from 1 [THEN conjunct1] have r: "recs = ?recs"
      by (auto simp: sample_claim_kept list_all2_Cons1 sample_claim_format
          format_claim_other_daemon)
    have i: "1 < length ?ids'"
      by simp
    from 1 [THEN conjunct2, THEN conjunct2, THEN mp, OF d', THEN conjunct1, THEN mp, OF kept,
        rule_format, OF i, THEN conjunct2]
    show ?case
      by (simp add: r)
  qed
  from run c1 c23 run' c3' show ?thesis
    by (intro conjI) (elim conjE, assumption)+
qed

section \<open>Strings of hexadecimal digits\<close>

text \<open>
  With \<open>bytes.fromhex\<close> as the decoder, a string made of hexadecimal digits only decodes
  to \<open>n\<close> bytes exactly when it has \<open>2 * n\<close> characters; so such a string passes
  \<open>assert_tx_hash\<close> exactly when it has 64 characters and \<open>assert_claim_id\<close> exactly when
  it has 40.
\<close>

lemma digit_not_space: "digit_value c \<noteq> None \<Longrightarrow> \<not> is_space c"
  by (auto simp: digit_value_def is_space_def split: if_splits)

lemma fromhex_hex_digits:
  "list_all (\<lambda>c. digit_value c \<noteq> None) t \<Longrightarrow>
   (\<exists>b. fromhex t = Some b \<and> length b = n) \<longleftrightarrow> length t = 2 * n"
proof (induction t arbitrary: n rule: fromhex.induct)
  case 1
  then show ?case by auto
next
  case (2 c)
  then show ?case by (auto simp: digit_not_space)
next
  case (3 c d r)
  from "3.prems" obtain x y where xy: "digit_value c = Some x" "digit_value d = Some y"
    and r: "list_all (\<lambda>c. digit_value c \<noteq> None) r" and c: "\<not> is_space c"
    by (auto simp: digit_not_space)
  from "3.IH"(2) [OF c _ xy(1) xy(2) r]
  have IH: "(\<exists>b. fromhex r = Some b \<and> length b = k) \<longleftrightarrow> length r = 2 * k" for k
    by simp
  show ?case
  proof (cases n)
    case 0
    with xy c show ?thesis by auto
  next
    case (Suc k)
    with xy c IH [of k] show ?thesis by auto
  qed
qed

lemma assert_tx_hash_hex_digits:
  assumes "hex_to_bytes s = py_fromhex" and "list_all (\<lambda>c. digit_value c \<noteq> None) t"
  shows "assert_tx_hash s (PStr t) = Inr () \<longleftrightarrow> length t = 64"
  using fromhex_hex_digits [OF assms(2), of 32] assms(1)
  by (auto simp: assert_tx_hash_def py_fromhex_def split: option.splits)

lemma assert_claim_id_hex_digits:
  assumes "hex_to_bytes s = py_fromhex" and "list_all (\<lambda>c. digit_value c \<noteq> None) t"
  shows "assert_claim_id s (PStr t) = Inr () \<longleftrightarrow> length t = 40"
  using fromhex_hex_digits [OF assms(2), of 20] assms(1)
  by (auto simp: assert_claim_id_def py_fromhex_def split: option.splits)

text \<open>
  A space before a byte is skipped, so a string with other characters than digits can
  decode to 32 bytes as well.
\<close>

lemma fromhex_skips_space: "fromhex (32 # t) = fromhex t"
  by (cases t) (simp_all add: is_space_def)

end
